theory Spec2Isabelle
  imports Main
begin

unbundle bit_operations_syntax

section \<open>Hamming coder of dev/hammingcode.py\<close>

text \<open>
  The module has four functions: \<open>num_paritybits\<close>, \<open>parity\<close>, \<open>encode\<close> and
  \<open>decode\<close>. Bits are Python integers (\<open>int\<close>), lengths, indices, parity indices and the
  syndrome are non-negative machine-independent integers (\<open>nat\<close>). An exception is a
  value \<open>Inl e\<close> of the result type; a normal return is \<open>Inr v\<close>.
\<close>

subsection \<open>Exceptions and list access\<close>

datatype error = UnboundLocalError | IndexError

text \<open>\<open>xs[i]\<close> for an index \<open>i \<ge> 0\<close>: out of range raises IndexError.\<close>

definition getitem :: "int list \<Rightarrow> nat \<Rightarrow> error + int" where
  "getitem xs i = (if i < length xs then Inr (xs ! i) else Inl IndexError)"

text \<open>\<open>xs[i] = v\<close> for an index \<open>i \<ge> 0\<close>: out of range raises IndexError.\<close>

definition setitem :: "int list \<Rightarrow> nat \<Rightarrow> int \<Rightarrow> error + int list" where
  "setitem xs i v = (if i < length xs then Inr (xs[i := v]) else Inl IndexError)"

subsection \<open>num_paritybits\<close>

text \<open>
  \<^verbatim>\<open>
  def num_paritybits(k: int) -> int:
      while (1 << r) < k + r + 1:
          r += 1
      return r
  \<close>
  The name \<open>r\<close> is assigned in the body (\<open>r += 1\<close>) and is not declared global, so it is
  a local variable of the function, and nothing binds it before the loop. A local is
  modelled as an option: \<open>None\<close> is the local without a binding, and reading it raises
  UnboundLocalError. The loop is the recursion on the local's state.
\<close>

function num_paritybits_loop :: "nat \<Rightarrow> nat option \<Rightarrow> error + nat" where
  "num_paritybits_loop k None = Inl UnboundLocalError"
| "num_paritybits_loop k (Some r) =
     (if push_bit r 1 < k + r + 1 then num_paritybits_loop k (Some (r + 1)) else Inr r)"
  by pat_completeness auto
termination
proof (relation "measure (\<lambda>(k, v). case v of None \<Rightarrow> 0 | Some r \<Rightarrow> k + 1 - r)")
  show "wf (measure (\<lambda>(k, v). case v of None \<Rightarrow> 0 | Some r \<Rightarrow> k + 1 - r))"
    by simp
next
  fix k r :: nat
  assume guard: "push_bit r (1::nat) < k + r + 1"
  have "2 * r \<le> (2::nat) ^ r"
  proof (cases r)
    case 0
    then show ?thesis by simp
  next
    case (Suc m)
    have "Suc m \<le> (2::nat) ^ m"
      by (simp add: Suc_leI)
    with Suc show ?thesis by simp
  qed
  moreover from guard have "(2::nat) ^ r < k + r + 1"
    by simp
  ultimately have "r \<le> k"
    by linarith
  then show "((k, Some (r + 1)), (k, Some r))
      \<in> measure (\<lambda>(k, v). case v of None \<Rightarrow> 0 | Some r \<Rightarrow> k + 1 - r)"
    by simp
qed

definition num_paritybits :: "nat \<Rightarrow> error + nat" where
  "num_paritybits k = num_paritybits_loop k None"

subsection \<open>parity\<close>

text \<open>
  \<^verbatim>\<open>
  def parity(codeword, p):
      mask = 1 << p
      xor_sum = sum(bit for i, bit in enumerate(codeword) if i & mask) % 2
      return xor_sum
  \<close>
  \<open>enumerate\<close> counts from 0, so \<open>i\<close> is the 0-based index of \<open>bit\<close>.
\<close>

definition parity :: "int list \<Rightarrow> nat \<Rightarrow> int" where
  "parity codeword p =
     (let mask = push_bit p (1::nat)
      in sum_list (map snd (filter (\<lambda>(i, x). (i AND mask) \<noteq> 0) (enumerate 0 codeword))) mod 2)"

subsection \<open>encode\<close>

text \<open>
  The first loop of \<open>encode\<close>, over \<open>i\<close> in \<open>range(n)\<close>, with the counter \<open>j\<close>:
  a position whose 1-based index \<open>i + 1\<close> is not a power of two takes \<open>data[j]\<close>.
\<close>

fun place_data :: "int list \<Rightarrow> int list \<Rightarrow> nat list \<Rightarrow> nat \<Rightarrow> error + int list" where
  "place_data data codeword [] j = Inr codeword"
| "place_data data codeword (i # rest) j =
     (if (i AND (i + 1)) \<noteq> 0 then
        (case getitem data j of
           Inl e \<Rightarrow> Inl e
         | Inr x \<Rightarrow>
            (case setitem codeword i x of
               Inl e \<Rightarrow> Inl e
             | Inr codeword' \<Rightarrow> place_data data codeword' rest (j + 1)))
      else place_data data codeword rest j)"

text \<open>The second loop, over \<open>p\<close> in \<open>range(r)\<close>: \<open>codeword[(1 << p) - 1] = parity(codeword, p)\<close>.\<close>

fun fill_parity :: "int list \<Rightarrow> nat list \<Rightarrow> error + int list" where
  "fill_parity codeword [] = Inr codeword"
| "fill_parity codeword (p # rest) =
     (case setitem codeword (push_bit p 1 - 1) (parity codeword p) of
        Inl e \<Rightarrow> Inl e
      | Inr codeword' \<Rightarrow> fill_parity codeword' rest)"

text \<open>The body of \<open>encode\<close> once \<open>r\<close> is known (source lines 26 to 38).\<close>

definition encode_body :: "int list \<Rightarrow> nat \<Rightarrow> error + int list" where
  "encode_body data r =
     (let k = length data; n = k + r; codeword = replicate n 0
      in case place_data data codeword [0..<n] 0 of
           Inl e \<Rightarrow> Inl e
         | Inr codeword' \<Rightarrow> fill_parity codeword' [0..<r])"

definition encode :: "int list \<Rightarrow> error + int list" where
  "encode data =
     (case num_paritybits (length data) of
        Inl e \<Rightarrow> Inl e
      | Inr r \<Rightarrow> encode_body data r)"

subsection \<open>decode\<close>

text \<open>The loop \<open>r = 0; while (1 << r) < n + 1: r += 1\<close> of \<open>decode\<close>, from the current \<open>r\<close>.\<close>

function decode_r :: "nat \<Rightarrow> nat \<Rightarrow> nat" where
  "decode_r n r = (if push_bit r 1 < n + 1 then decode_r n (r + 1) else r)"
  by pat_completeness auto
termination
proof (relation "measure (\<lambda>(n, r). n + 1 - r)")
  show "wf (measure (\<lambda>(n, r). n + 1 - r))"
    by simp
next
  fix n r :: nat
  assume guard: "push_bit r (1::nat) < n + 1"
  have "r < (2::nat) ^ r"
    by (rule less_exp)
  moreover from guard have "(2::nat) ^ r < n + 1"
    by simp
  ultimately have "r \<le> n"
    by linarith
  then show "((n, r + 1), (n, r)) \<in> measure (\<lambda>(n, r). n + 1 - r)"
    by simp
qed

declare decode_r.simps [simp del]

text \<open>
  The loop over \<open>p\<close> in \<open>range(r)\<close> that assembles the syndrome: \<open>expected\<close> is the
  recomputed parity, \<open>received\<close> the stored bit \<open>codeword[(1 << p) - 1]\<close>.
\<close>

fun syndrome_loop :: "int list \<Rightarrow> nat list \<Rightarrow> nat \<Rightarrow> error + nat" where
  "syndrome_loop codeword [] syndrome = Inr syndrome"
| "syndrome_loop codeword (p # rest) syndrome =
     (let expected = parity codeword p
      in case getitem codeword (push_bit p 1 - 1) of
           Inl e \<Rightarrow> Inl e
         | Inr received \<Rightarrow>
             syndrome_loop codeword rest
               (if expected \<noteq> received then syndrome OR push_bit p 1 else syndrome))"

text \<open>\<open>codeword[i] ^= 1\<close>: reads the element, then stores it back XORed with 1.\<close>

definition flip_bit_at :: "int list \<Rightarrow> nat \<Rightarrow> error + int list" where
  "flip_bit_at codeword i =
     (case getitem codeword i of
        Inl e \<Rightarrow> Inl e
      | Inr x \<Rightarrow> setitem codeword i (x XOR 1))"

text \<open>\<open>[bit for i, bit in enumerate(codeword) if (i & (i + 1)) != 0]\<close>\<close>

definition extract_data :: "int list \<Rightarrow> int list" where
  "extract_data codeword =
     map snd (filter (\<lambda>(i, x). (i AND (i + 1)) \<noteq> 0) (enumerate 0 codeword))"

text \<open>
  \<open>decode\<close> as a function of the list's contents. The working copy is the local value
  \<open>codeword\<close>; the returned pair is \<open>(data, clean)\<close>.
\<close>

definition decode :: "int list \<Rightarrow> error + (int list \<times> bool)" where
  "decode codeword =
     (let n = length codeword;
          r = decode_r n 0
      in case syndrome_loop codeword [0..<r] 0 of
           Inl e \<Rightarrow> Inl e
         | Inr syndrome \<Rightarrow>
             if syndrome \<noteq> 0 \<and> syndrome \<le> n then
               (case flip_bit_at codeword (syndrome - 1) of
                  Inl e \<Rightarrow> Inl e
                | Inr codeword' \<Rightarrow> Inr (extract_data codeword', False))
             else Inr (extract_data codeword, syndrome = 0))"

text \<open>
  \<open>decode\<close> on a store of list objects, for what the call does to its argument. A store
  is the list of the allocated list objects, an address is an index into it, and a new
  object goes at the end. \<open>codeword = codeword.copy()\<close> allocates a list with the same
  elements and rebinds the local name to its address \<open>b\<close>; every later read and the
  write \<open>codeword[syndrome - 1] ^= 1\<close> go through \<open>b\<close>. The result is the returned pair
  and the store at return.
\<close>

type_synonym store = "int list list"

definition list_copy :: "nat \<Rightarrow> store \<Rightarrow> nat \<times> store" where
  "list_copy a h = (length h, h @ [h ! a])"

definition decode_store :: "nat \<Rightarrow> store \<Rightarrow> error + ((int list \<times> bool) \<times> store)" where
  "decode_store a h =
     (let (b, h1) = list_copy a h;
          n = length (h1 ! b);
          r = decode_r n 0
      in case syndrome_loop (h1 ! b) [0..<r] 0 of
           Inl e \<Rightarrow> Inl e
         | Inr syndrome \<Rightarrow>
             if syndrome \<noteq> 0 \<and> syndrome \<le> n then
               (case flip_bit_at (h1 ! b) (syndrome - 1) of
                  Inl e \<Rightarrow> Inl e
                | Inr codeword' \<Rightarrow>
                    (let h2 = h1[b := codeword'] in Inr ((extract_data (h2 ! b), False), h2)))
             else Inr ((extract_data (h1 ! b), syndrome = 0), h1))"

section \<open>Auxiliary facts\<close>

subsection \<open>The unbound local of num_paritybits\<close>

lemma num_paritybits_raises: "num_paritybits k = Inl UnboundLocalError"
  by (simp add: num_paritybits_def)

lemma encode_raises: "encode data = Inl UnboundLocalError"
  by (simp add: encode_def num_paritybits_raises)

text \<open>
  The loop itself, entered with \<open>r\<close> bound to 0, gives the values the comment in the
  source traces (\<open>1 < 5, 2 < 6, 4 < 7, 8 < 8, so it stops at r = 3\<close> for 4 data bits),
  and 0 for no data bits.
\<close>

lemma num_paritybits_loop_from_zero:
  "num_paritybits_loop 4 (Some 0) = Inr 3 \<and> num_paritybits_loop 1 (Some 0) = Inr 2
     \<and> num_paritybits_loop 0 (Some 0) = Inr 0"
  by code_simp

subsection \<open>The positions parity reads\<close>

lemma filter_enumerate_update:
  assumes "\<not> Q (n + i)"
  shows "filter (\<lambda>(j, x). Q j) (enumerate n (xs[i := v])) = filter (\<lambda>(j, x). Q j) (enumerate n xs)"
  using assms
proof (induction xs arbitrary: n i)
  case Nil
  show ?case by simp
next
  case (Cons x xs)
  show ?case
  proof (cases i)
    case 0
    with Cons.prems show ?thesis by simp
  next
    case (Suc k)
    with Cons.prems have "\<not> Q (Suc n + k)" by simp
    then have "filter (\<lambda>(j, x). Q j) (enumerate (Suc n) (xs[k := v]))
        = filter (\<lambda>(j, x). Q j) (enumerate (Suc n) xs)"
      by (rule Cons.IH)
    with Suc show ?thesis by simp
  qed
qed

text \<open>The index \<open>(1 << p) - 1\<close> has bit \<open>p\<close> clear, so the mask \<open>1 << p\<close> does not select it.\<close>

lemma own_slot_not_covered: "(push_bit p (1::nat) - 1) AND push_bit p 1 = 0"
proof -
  have "(push_bit p (1::nat) - 1) = mask p"
    by (simp add: mask_eq_exp_minus_1)
  moreover have "mask p AND (2::nat) ^ p = 0"
    by (rule bit_eqI) (auto simp add: bit_and_iff bit_mask_iff bit_exp_iff)
  ultimately show ?thesis
    by simp
qed

text \<open>Hence \<open>parity(codeword, p)\<close> does not depend on the element stored at \<open>(1 << p) - 1\<close>.\<close>

lemma parity_ignores_own_slot:
  "parity (codeword[push_bit p 1 - 1 := v]) p = parity codeword p"
proof -
  have "\<not> (0 + (push_bit p (1::nat) - 1)) AND push_bit p 1 \<noteq> 0"
    using own_slot_not_covered [of p] by simp
  then have "filter (\<lambda>(j, x). j AND push_bit p 1 \<noteq> 0) (enumerate 0 (codeword[push_bit p 1 - 1 := v]))
      = filter (\<lambda>(j, x). j AND push_bit p 1 \<noteq> 0) (enumerate 0 codeword)"
    by (rule filter_enumerate_update [where Q = "\<lambda>j. j AND push_bit p 1 \<noteq> 0"])
  then show ?thesis
    by (simp only: parity_def Let_def)
qed

text \<open>
  The body of \<open>encode\<close> run with \<open>r = 2\<close> on the data \<open>[1]\<close>, and \<open>decode\<close> on what it
  builds: the first parity check of the built codeword does not pass.
\<close>

lemma encode_body_example:
  "encode_body [1] 2 = Inr [0, 1, 1] \<and> parity [0, 1, 1] 0 = 1
     \<and> decode [0, 1, 1] = Inr ([1], False)"
  by code_simp

subsection \<open>The indices decode uses\<close>

lemma decode_r_0: "decode_r 0 0 = 0"
  by (subst decode_r.simps) simp

text \<open>Every \<open>p\<close> below the \<open>r\<close> the loop returns has \<open>2 ^ p \<le> n\<close>.\<close>

lemma decode_r_covers:
  assumes "p < decode_r n r" and "\<And>q. q < r \<Longrightarrow> 2 ^ q \<le> n"
  shows "2 ^ p \<le> n"
  using assms
proof (induction n r rule: decode_r.induct)
  case (1 n r)
  show ?case
  proof (cases "push_bit r (1::nat) < n + 1")
    case True
    then have step: "decode_r n r = decode_r n (r + 1)"
      by (subst decode_r.simps) simp
    have "2 ^ q \<le> n" if "q < r + 1" for q
    proof (cases "q = r")
      case True
      with \<open>push_bit r (1::nat) < n + 1\<close> show ?thesis by simp
    next
      case False
      with that have "q < r" by simp
      then show ?thesis by (rule "1.prems"(2))
    qed
    with "1.IH" [OF True] "1.prems"(1) step show ?thesis
      by simp
  next
    case False
    then have "decode_r n r = r"
      by (subst decode_r.simps) simp
    with "1.prems" show ?thesis by simp
  qed
qed

lemma parity_slot_in_range: "p < decode_r n 0 \<Longrightarrow> push_bit p (1::nat) - 1 < n"
proof -
  assume "p < decode_r n 0"
  then have "2 ^ p \<le> n"
    by (rule decode_r_covers) simp
  moreover have "(0::nat) < 2 ^ p" by simp
  ultimately have "(2::nat) ^ p - 1 < n" by linarith
  then show ?thesis by simp
qed

lemma syndrome_loop_returns:
  assumes "\<And>p. p \<in> set ps \<Longrightarrow> push_bit p (1::nat) - 1 < length codeword"
  shows "\<exists>s. syndrome_loop codeword ps s0 = Inr s"
  using assms
proof (induction ps arbitrary: s0)
  case Nil
  show ?case by simp
next
  case (Cons p ps)
  have "push_bit p (1::nat) - 1 < length codeword"
    by (rule Cons.prems) simp
  then have "getitem codeword (push_bit p 1 - 1) = Inr (codeword ! (push_bit p 1 - 1))"
    by (simp add: getitem_def)
  moreover have "\<exists>s. syndrome_loop codeword ps s1 = Inr s" for s1
    by (rule Cons.IH, rule Cons.prems, simp)
  ultimately show ?case
    by (simp add: Let_def)
qed

lemma decode_syndrome_returns:
  "\<exists>s. syndrome_loop codeword [0..<decode_r (length codeword) 0] 0 = Inr s"
  by (rule syndrome_loop_returns, rule parity_slot_in_range, simp)

lemma flip_bit_at_in_range:
  "i < length codeword \<Longrightarrow> flip_bit_at codeword i = Inr (codeword[i := codeword ! i XOR 1])"
  by (simp add: flip_bit_at_def getitem_def setitem_def)

subsection \<open>decode by its syndrome\<close>

lemma decode_eq:
  assumes "syndrome_loop codeword [0..<decode_r (length codeword) 0] 0 = Inr s"
  shows "decode codeword =
     (if s \<noteq> 0 \<and> s \<le> length codeword
      then Inr (extract_data (codeword[s - 1 := codeword ! (s - 1) XOR 1]), False)
      else Inr (extract_data codeword, s = 0))"
proof (cases "s \<noteq> 0 \<and> s \<le> length codeword")
  case True
  then have "s - 1 < length codeword" by linarith
  then have "flip_bit_at codeword (s - 1) = Inr (codeword[s - 1 := codeword ! (s - 1) XOR 1])"
    by (rule flip_bit_at_in_range)
  with assms True show ?thesis
    by (simp add: decode_def Let_def)
next
  case False
  with assms show ?thesis
    by (auto simp add: decode_def Let_def)
qed

lemma decode_store_eq:
  assumes "a < length h"
    and "syndrome_loop (h ! a) [0..<decode_r (length (h ! a)) 0] 0 = Inr s"
  shows "decode_store a h =
     (if s \<noteq> 0 \<and> s \<le> length (h ! a)
      then Inr ((extract_data ((h ! a)[s - 1 := (h ! a) ! (s - 1) XOR 1]), False),
                h @ [(h ! a)[s - 1 := (h ! a) ! (s - 1) XOR 1]])
      else Inr ((extract_data (h ! a), s = 0), h @ [h ! a]))"
proof (cases "s \<noteq> 0 \<and> s \<le> length (h ! a)")
  case True
  then have "s - 1 < length (h ! a)" by linarith
  then have "flip_bit_at (h ! a) (s - 1) = Inr ((h ! a)[s - 1 := (h ! a) ! (s - 1) XOR 1])"
    by (rule flip_bit_at_in_range)
  with assms True show ?thesis
    by (simp add: decode_store_def list_copy_def Let_def)
next
  case False
  with assms show ?thesis
    by (auto simp add: decode_store_def list_copy_def Let_def)
qed

text \<open>The pair \<open>decode_store\<close> returns is the pair \<open>decode\<close> returns on the argument's elements.\<close>

lemma decode_store_result:
  assumes "a < length h"
  shows "map_sum id fst (decode_store a h) = decode (h ! a)"
proof -
  obtain s where s: "syndrome_loop (h ! a) [0..<decode_r (length (h ! a)) 0] 0 = Inr s"
    using decode_syndrome_returns by blast
  show ?thesis
    by (simp add: decode_store_eq [OF assms s] decode_eq [OF s])
qed

text \<open>A call that corrects a bit: the correction lands in the copy, at the new address 1.\<close>

lemma decode_store_example: "decode_store 0 [[1]] = Inr (([], False), [[1], [0]])"
  by code_simp

section \<open>Properties\<close>

text \<open>
  C1 (round trip \<open>decode(encode(data)) == (data, True)\<close>): on the data \<open>[1, 0, 1, 1]\<close> the
  call of \<open>encode\<close> raises UnboundLocalError, raised by \<open>num_paritybits\<close> at its first
  read of \<open>r\<close>, so \<open>decode\<close> is never reached and no pair is returned.
\<close>

theorem roundtrip_raises:
  "(case encode [1, 0, 1, 1] of Inl e \<Rightarrow> Inl e | Inr c \<Rightarrow> decode c) = Inl UnboundLocalError"
  by (simp add: encode_raises)

text \<open>
  C2 (single bit flip corrected): on the data \<open>[1, 0, 1, 1]\<close> and position 4, \<open>encode\<close>
  raises UnboundLocalError, so there is no codeword to flip a bit of and to decode.
\<close>

theorem flipped_roundtrip_raises:
  "(case encode [1, 0, 1, 1] of
      Inl e \<Rightarrow> Inl e
    | Inr c \<Rightarrow> (case flip_bit_at c 4 of Inl e \<Rightarrow> Inl e | Inr c' \<Rightarrow> decode c'))
     = Inl UnboundLocalError"
  by (simp add: encode_raises)

text \<open>
  C3 (\<open>num_paritybits(k)\<close> returns the minimal \<open>r\<close> with \<open>2 ^ r \<ge> k + r + 1\<close>): for
  \<open>k = 4\<close>, the example of the comment in the source, the function raises
  UnboundLocalError and returns nothing.
\<close>

theorem num_paritybits_unbound: "num_paritybits 4 = Inl UnboundLocalError"
  by (simp add: num_paritybits_def)

text \<open>
  C4 (every parity check of \<open>encode(data)\<close> passes): on the data \<open>[1]\<close>, \<open>encode\<close> raises
  UnboundLocalError and returns no codeword.
\<close>

theorem encode_unbound: "encode [1] = Inl UnboundLocalError"
  by (simp add: encode_def num_paritybits_def)

text \<open>
  C5, as stated (flipping the bit at index \<open>2 ^ p - 1\<close> changes \<open>parity(codeword, p)\<close>),
  fails: for the codeword \<open>[0, 1, 1, 0, 0, 1, 1]\<close> of the comment in the source and
  \<open>p = 0\<close>, flipping the bit at index 0 leaves the value of \<open>parity\<close> as it was.
\<close>

theorem parity_own_slot_flip:
  "flip_bit_at [0, 1, 1, 0, 0, 1, 1] 0 = Inr [1, 1, 1, 0, 0, 1, 1]
     \<and> parity [1, 1, 1, 0, 0, 1, 1] 0 = parity [0, 1, 1, 0, 0, 1, 1] 0"
  by code_simp

text \<open>
  C5, amended: for every codeword and every parity index \<open>p\<close>, the covering set that
  \<open>parity(codeword, p)\<close> XORs does not include the parity bit's own position, the
  0-based index \<open>2 ^ p - 1\<close>: flipping the bit stored there (\<open>codeword[2 ^ p - 1] ^= 1\<close>)
  leaves the value \<open>parity(codeword, p)\<close> returns unchanged. This is what lets \<open>encode\<close>
  store the result of \<open>parity\<close> in that slot and \<open>decode\<close> compare the two.
\<close>

theorem parity_own_slot_excluded:
  assumes "flip_bit_at codeword (push_bit p 1 - 1) = Inr codeword'"
  shows "parity codeword' p = parity codeword p"
proof -
  have "codeword' = codeword[push_bit p 1 - 1 := codeword ! (push_bit p 1 - 1) XOR 1]"
    using assms by (auto simp add: flip_bit_at_def getitem_def setitem_def split: if_splits)
  then show ?thesis
    by (simp only: parity_ignores_own_slot)
qed

theorem parity_own_slot_excluded_witness:
  "flip_bit_at [1, 0, 1, 0, 0, 1, 1] (push_bit 2 1 - 1) = Inr [1, 0, 1, 1, 0, 1, 1]
     \<and> parity [1, 0, 1, 1, 0, 1, 1] 2 = parity [1, 0, 1, 0, 0, 1, 1] 2"
proof -
  have f: "flip_bit_at [1, 0, 1, 0, 0, 1, 1] (push_bit 2 1 - 1) = Inr [1, 0, 1, 1, 0, 1, 1]"
    by code_simp
  from f parity_own_slot_excluded [OF f] show ?thesis
    by (rule conjI)
qed

text \<open>
  C6: when the syndrome \<open>decode\<close> computes is not 0 and is greater than the length of
  the codeword, the working copy (the object at the new address) holds the elements of
  the argument unchanged, the flag is false, and the data is extracted from these
  unchanged elements.
\<close>

theorem decode_syndrome_out_of_range:
  assumes "a < length h" and "h ! a = codeword"
    and "syndrome_loop codeword [0..<decode_r (length codeword) 0] 0 = Inr syndrome"
    and "syndrome \<noteq> 0" and "length codeword < syndrome"
  shows "decode_store a h = Inr ((extract_data codeword, False), h @ [codeword])
       \<and> decode codeword = Inr (extract_data codeword, False)"
proof -
  from assms(2,3) have s: "syndrome_loop (h ! a) [0..<decode_r (length (h ! a)) 0] 0 = Inr syndrome"
    by simp
  from assms(4,5) have out: "\<not> (syndrome \<noteq> 0 \<and> syndrome \<le> length codeword)" "syndrome \<noteq> 0"
    by simp_all
  from out assms(2) have "decode_store a h = Inr ((extract_data codeword, False), h @ [codeword])"
    by (simp add: decode_store_eq [OF assms(1) s])
  moreover from out have "decode codeword = Inr (extract_data codeword, False)"
    by (simp add: decode_eq [OF assms(3)])
  ultimately show ?thesis ..
qed

theorem decode_syndrome_out_of_range_witness:
  "syndrome_loop [0, 0, 0, 1, 0] [0..<decode_r (length [0, 0, 0, 1, 0 :: int]) 0] 0 = Inr 7
     \<and> decode_store 0 [[0, 0, 0, 1, 0]] = Inr (([0, 0], False), [[0, 0, 0, 1, 0], [0, 0, 0, 1, 0]])
     \<and> decode [0, 0, 0, 1, 0] = Inr ([0, 0], False)"
proof -
  have s: "syndrome_loop [0, 0, 0, 1, 0] [0..<decode_r (length [0, 0, 0, 1, 0 :: int]) 0] 0 = Inr 7"
    by code_simp
  have e: "extract_data [0, 0, 0, 1, 0] = [0, 0]"
    by code_simp
  have "decode_store 0 [[0, 0, 0, 1, 0]]
        = Inr ((extract_data [0, 0, 0, 1, 0], False), [[0, 0, 0, 1, 0]] @ [[0, 0, 0, 1, 0]])
      \<and> decode [0, 0, 0, 1, 0] = Inr (extract_data [0, 0, 0, 1, 0], False)"
    by (rule decode_syndrome_out_of_range [where syndrome = 7, OF _ _ s]) simp_all
  with s e show ?thesis
    by simp
qed

text \<open>
  C7: for every list, \<open>decode\<close> returns a pair \<open>(data, clean)\<close> and raises nothing: the
  reads of \<open>codeword[(1 << p) - 1]\<close> for \<open>p < r\<close> and the write at \<open>syndrome - 1\<close> are
  in range, an out-of-range index being an IndexError of the model.
\<close>

theorem decode_returns: "\<exists>data clean. decode codeword = Inr (data, clean)"
proof -
  obtain s where s: "syndrome_loop codeword [0..<decode_r (length codeword) 0] 0 = Inr s"
    using decode_syndrome_returns by blast
  show ?thesis
  proof (cases "s \<noteq> 0 \<and> s \<le> length codeword")
    case True
    then have "s - 1 < length codeword" by linarith
    then have "flip_bit_at codeword (s - 1) = Inr (codeword[s - 1 := codeword ! (s - 1) XOR 1])"
      by (rule flip_bit_at_in_range)
    with s True show ?thesis
      by (auto simp add: decode_def Let_def)
  next
    case False
    with s show ?thesis
      by (auto simp add: decode_def Let_def)
  qed
qed

text \<open>
  C8: \<open>decode\<close> called on the list at address \<open>a\<close> returns, and at return the list at
  \<open>a\<close>, like every list that existed before the call, holds the elements it held
  before: a correction is written to the copy only.
\<close>

theorem decode_store_keeps_argument:
  assumes "a < length h"
  shows "\<exists>result h'. decode_store a h = Inr (result, h') \<and> h' ! a = h ! a \<and> take (length h) h' = h"
proof -
  obtain s where s: "syndrome_loop (h ! a) [0..<decode_r (length (h ! a)) 0] 0 = Inr s"
    using decode_syndrome_returns by blast
  from assms show ?thesis
    by (auto simp add: decode_store_eq [OF assms s] nth_append)
qed

theorem decode_store_keeps_argument_witness:
  "\<exists>result h'. decode_store 0 [[1]] = Inr (result, h') \<and> h' ! 0 = [1] \<and> take 1 h' = [[1]]"
  using decode_store_keeps_argument [of 0 "[[1]]"] by simp

text \<open>
  C9 (empty data): \<open>encode([])\<close> raises UnboundLocalError instead of returning \<open>[0]\<close>;
  \<open>decode([0])\<close> returns \<open>([], True)\<close> and \<open>decode([1])\<close> returns \<open>([], False)\<close>.
\<close>

theorem empty_data_scenario:
  "encode [] = Inl UnboundLocalError \<and> decode [0] = Inr ([], True) \<and> decode [1] = Inr ([], False)"
  by code_simp

text \<open>
  C10: \<open>decode\<close> of the empty list returns the empty data sequence and the flag true:
  \<open>r\<close> is 0, no parity check runs, the syndrome is 0 and nothing is corrected.
\<close>

theorem decode_empty: "decode [] = Inr ([], True)"
  by (simp add: decode_def decode_r_0 extract_data_def enumerate_eq_zip)

end
